theory Spec2Isabelle
  imports Main
begin

section \<open>The user management demonstration: data model\<close>

text \<open>
  The program is a single Python module, \<^verbatim>\<open>user_management_system.py\<close>.
  Strings are Python \<^verbatim>\<open>str\<close> values whose code points lie below 256; a
  \<^typ>\<open>char\<close> is one such code point.  Identifiers are Python integers, which
  are unbounded, hence \<^typ>\<open>int\<close>.

  \<^verbatim>\<open>User\<close> is an abstract base class (its \<^verbatim>\<open>get_role\<close> is abstract), so every
  instance belongs to one of the two concrete subclasses.
\<close>

datatype user_class = AdminUser | RegularUser

record user =
  cls :: user_class
  user_id :: int
  name :: string
  email :: string
  active :: bool

text \<open>
  The exceptions the module raises itself (\<^verbatim>\<open>PermissionError\<close>, with its message)
  or lets escape from a builtin: \<^verbatim>\<open>ValueError\<close> from tuple unpacking and from
  \<^verbatim>\<open>int\<close>, \<^verbatim>\<open>AttributeError\<close> from reading a missing attribute.
\<close>

datatype error = PermissionError string | ValueError | AttributeError

text \<open>
  Python is dynamically typed: an operand or a list element may be any value.  The
  module only ever reads the attribute \<^verbatim>\<open>user_id\<close> of such a value, so a value is
  either a user or something that has no \<^verbatim>\<open>user_id\<close> attribute.
\<close>

datatype pyval = UserV user | OtherV

fun attr_user_id :: "pyval \<Rightarrow> error + int" where
  "attr_user_id (UserV u) = Inr (user_id u)"
| "attr_user_id OtherV = Inl AttributeError"

fun get_role :: "user \<Rightarrow> string" where
  "get_role u = (case cls u of AdminUser \<Rightarrow> ''ADMIN'' | RegularUser \<Rightarrow> ''REGULAR'')"

subsection \<open>Static and special methods of \<^verbatim>\<open>User\<close>\<close>

text \<open>\<^verbatim>\<open>return "@" in email and "." in email\<close>\<close>

definition is_valid_email :: "string \<Rightarrow> bool" where
  "is_valid_email e \<longleftrightarrow> CHR ''@'' \<in> set e \<and> CHR ''.'' \<in> set e"

text \<open>
  \<^verbatim>\<open>__eq__\<close> and \<^verbatim>\<open>__lt__\<close> read \<^verbatim>\<open>other.user_id\<close> with no type check
  and compare it with \<^verbatim>\<open>self.user_id\<close>.
\<close>

definition User_eq :: "user \<Rightarrow> pyval \<Rightarrow> error + bool" where
  "User_eq self other =
     (case attr_user_id other of
        Inl e \<Rightarrow> Inl e
      | Inr i \<Rightarrow> Inr (user_id self = i))"

definition User_lt :: "user \<Rightarrow> pyval \<Rightarrow> error + bool" where
  "User_lt self other =
     (case attr_user_id other of
        Inl e \<Rightarrow> Inl e
      | Inr i \<Rightarrow> Inr (user_id self < i))"

subsection \<open>Instances and the class-level counter\<close>

text \<open>
  Instances are mutable and have identity, and \<^verbatim>\<open>User.active_user_count\<close> is one
  class attribute shared by all of them.  The world is the store of instances, in
  order of construction (an instance's address is its index), and the counter.
\<close>

record world =
  heap :: "user list"
  active_user_count :: int

definition initial_world :: world where
  "initial_world = \<lparr>heap = [], active_user_count = 0\<rparr>"

text \<open>
  \<^verbatim>\<open>cls(user_id, name, email)\<close>: \<^verbatim>\<open>__init__\<close> stores the three fields, sets
  \<^verbatim>\<open>active\<close> and adds one to the counter.  The result is the new instance's address.
\<close>

definition User_init :: "user_class \<Rightarrow> int \<Rightarrow> string \<Rightarrow> string \<Rightarrow> world \<Rightarrow> nat \<times> world" where
  "User_init c uid n e w =
     (length (heap w),
      w\<lparr>heap := heap w @ [\<lparr>cls = c, user_id = uid, name = n, email = e, active = True\<rparr>],
        active_user_count := active_user_count w + 1\<rparr>)"

text \<open>
  \<^verbatim>\<open>deactivate\<close> is a method: it is called on an existing instance.  An address
  beyond the store denotes no instance, there is nothing to call, and the world stays.
\<close>

definition deactivate :: "nat \<Rightarrow> world \<Rightarrow> world" where
  "deactivate a w =
     (if a < length (heap w) then
        (if active (heap w ! a) then
           w\<lparr>heap := (heap w)[a := (heap w ! a)\<lparr>active := False\<rparr>],
             active_user_count := active_user_count w - 1\<rparr>
         else w)
      else w)"

text \<open>A run of the program as far as the counter goes: constructions and deactivations.\<close>

datatype action = Construct user_class int string string | Deactivate nat

fun perform :: "action \<Rightarrow> world \<Rightarrow> world" where
  "perform (Construct c uid n e) w = snd (User_init c uid n e w)"
| "perform (Deactivate a) w = deactivate a w"

fun perform_all :: "action list \<Rightarrow> world \<Rightarrow> world" where
  "perform_all [] w = w"
| "perform_all (x # xs) w = perform_all xs (perform x w)"

definition active_instances :: "world \<Rightarrow> nat" where
  "active_instances w = length (filter active (heap w))"

subsection \<open>The alternate constructor\<close>





definition digit_val :: "char \<Rightarrow> int" where
  "digit_val c = int (of_char c) - 48"






subsection \<open>Reference notions for the alternate constructor\<close>



text \<open>The number a run of decimal digits denotes: each digit times its power of ten.\<close>

definition decimal_value :: "string \<Rightarrow> int" where
  "decimal_value ds = (\<Sum>i<length ds. digit_val (ds ! i) * 10 ^ (length ds - Suc i))"


subsection \<open>Decorators\<close>

text \<open>
  A Python function has a name (\<^verbatim>\<open>__name__\<close>) and a body.  Calling it on its
  arguments in a world prints lines on the console, then returns a value or raises,
  and leaves a world.  The result of a call is the triple of the lines printed, the
  value or the exception (\<open>Inl\<close>), and the world left.  The type of exceptions is a
  parameter: a wrapped function may raise anything.
\<close>

record ('a, 'b, 'e, 'w) pyfunc =
  fname :: string
  call :: "'a \<Rightarrow> 'w \<Rightarrow> string list \<times> ('e + 'b) \<times> 'w"

text \<open>
  \<^verbatim>\<open>log_execution(enabled)(func)\<close>: the wrapper prints the notice when enabled and
  returns \<^verbatim>\<open>func(*args, **kwargs)\<close>.  \<^verbatim>\<open>functools.wraps\<close> gives the wrapper the
  name of \<^verbatim>\<open>func\<close>.
\<close>

definition log_execution ::
  "bool \<Rightarrow> ('a, 'b, 'e, 'w) pyfunc \<Rightarrow> ('a, 'b, 'e, 'w) pyfunc" where
  "log_execution enabled func =
     \<lparr>fname = fname func,
      call = (\<lambda>args w.
        let notice = (if enabled then [''[LOG] Executing '' @ fname func] else [])
        in (case call func args w of
              (out, r, w') \<Rightarrow> (notice @ out, r, w')))\<rparr>"

text \<open>
  \<^verbatim>\<open>time_execution(func)\<close>: the wrapper reads the clock, calls \<^verbatim>\<open>func\<close>, and when
  the call has returned prints the notice and returns the result.  An exception
  leaves the wrapper at the call.  The clock (\<^verbatim>\<open>time.time()\<close>) and the rendering of
  the difference of two readings with four decimals (\<^verbatim>\<open>:.4f\<close>) are parameters.
\<close>

definition time_execution ::
  "('w \<Rightarrow> 't) \<Rightarrow> ('t \<Rightarrow> 't \<Rightarrow> string) \<Rightarrow> ('a, 'b, 'e, 'w) pyfunc \<Rightarrow> ('a, 'b, 'e, 'w) pyfunc" where
  "time_execution clock fmt_elapsed func =
     \<lparr>fname = fname func,
      call = (\<lambda>args w.
        let start = clock w
        in (case call func args w of
              (out, Inl e, w') \<Rightarrow> (out, Inl e, w')
            | (out, Inr result, w') \<Rightarrow>
                (out @ [''[TIME] '' @ fname func @ '' took '' @ fmt_elapsed (clock w') start @ ''s''],
                 Inr result, w')))\<rparr>"

text \<open>
  \<^verbatim>\<open>require_admin(func)\<close>: the wrapper's first argument is \<^verbatim>\<open>self\<close>; it raises
  unless \<^verbatim>\<open>self.get_role()\<close> is \<^verbatim>\<open>"ADMIN"\<close>, and otherwise returns
  \<^verbatim>\<open>func(self, *args, **kwargs)\<close>.
\<close>

definition require_admin ::
  "(user \<times> 'a, 'b, error, 'w) pyfunc \<Rightarrow> (user \<times> 'a, 'b, error, 'w) pyfunc" where
  "require_admin func =
     \<lparr>fname = fname func,
      call = (\<lambda>(self, args) w.
        if get_role self \<noteq> ''ADMIN'' then ([], Inl (PermissionError ''Admin access required''), w)
        else call func (self, args) w)\<rparr>"

text \<open>
  \<^verbatim>\<open>AdminUser.delete_user\<close>: the body prints one line and returns \<^verbatim>\<open>None\<close>; the
  method is the body under \<^verbatim>\<open>@log_execution()\<close> (enabled by default) under
  \<^verbatim>\<open>@require_admin\<close>.
\<close>

definition delete_user_body :: "(user \<times> unit, unit, error, 'w) pyfunc" where
  "delete_user_body =
     \<lparr>fname = ''delete_user'', call = (\<lambda>(self, _) w. ([''User deleted''], Inr (), w))\<rparr>"

definition delete_user :: "(user \<times> unit, unit, error, 'w) pyfunc" where
  "delete_user = require_admin (log_execution True delete_user_body)"

subsection \<open>The repository and its generator\<close>

record 'a UserRepository =
  users :: "'a list"

text \<open>
  \<^verbatim>\<open>stream_users\<close> is a generator function: the call runs nothing and returns a
  generator.  The first \<^verbatim>\<open>next\<close> enters the loop over \<^verbatim>\<open>self.users\<close>; from then on
  the generator is suspended at the \<^verbatim>\<open>yield\<close>, holding the list and the index of
  the next element; when the loop ends the generator is finished for good.
  \<open>None\<close> is \<^verbatim>\<open>StopIteration\<close>.  The list is not changed while generators run over
  it: no operation of the module does that.
\<close>

datatype 'a generator = Created "'a UserRepository" | Suspended "'a list" nat | Finished

definition stream_users :: "'a UserRepository \<Rightarrow> 'a generator" where
  "stream_users self = Created self"

definition resume :: "'a list \<Rightarrow> nat \<Rightarrow> 'a option \<times> 'a generator" where
  "resume xs i = (if i < length xs then (Some (xs ! i), Suspended xs (Suc i)) else (None, Finished))"

fun gen_next :: "'a generator \<Rightarrow> 'a option \<times> 'a generator" where
  "gen_next (Created self) = resume (users self) 0"
| "gen_next (Suspended xs i) = resume xs i"
| "gen_next Finished = (None, Finished)"

text \<open>The elements a generator has yet to yield, for the termination of a full traversal.\<close>

fun remaining :: "'a generator \<Rightarrow> nat" where
  "remaining (Created self) = Suc (length (users self))"
| "remaining (Suspended xs i) = length xs - i"
| "remaining Finished = 0"

text \<open>A full traversal (\<^verbatim>\<open>for u in g\<close>): \<^verbatim>\<open>next\<close> until \<^verbatim>\<open>StopIteration\<close>.\<close>

function traverse :: "'a generator \<Rightarrow> 'a list" where
  "traverse g = (case gen_next g of (None, _) \<Rightarrow> [] | (Some x, g') \<Rightarrow> x # traverse g')"
  by pat_completeness auto
termination
proof (relation "measure remaining")
  show "wf (measure remaining)" by simp
next
  fix g :: "'a generator" and r g' y
  assume "(r, g') = gen_next g" and "r = Some y"
  then have "gen_next g = (Some y, g')" by simp
  then show "(g', g) \<in> measure remaining"
    by (cases g) (auto simp: resume_def split: if_splits)
qed

declare traverse.simps [simp del]

text \<open>A partial traversal: at most \<open>k\<close> calls of \<^verbatim>\<open>next\<close>; what was yielded, and the generator left.\<close>

fun traverse_upto :: "nat \<Rightarrow> 'a generator \<Rightarrow> 'a list \<times> 'a generator" where
  "traverse_upto 0 g = ([], g)"
| "traverse_upto (Suc k) g =
     (case gen_next g of
        (None, g') \<Rightarrow> ([], g')
      | (Some x, g') \<Rightarrow> (case traverse_upto k g' of (xs, g'') \<Rightarrow> (x # xs, g'')))"

subsection \<open>Lookup\<close>

text \<open>
  \<^verbatim>\<open>find_user\<close>: the loop reads \<^verbatim>\<open>user.user_id\<close> of each element in turn and returns
  the element at the first hit; the \<^verbatim>\<open>else\<close> of the loop runs when the list is used
  up, prints, and the function returns \<^verbatim>\<open>None\<close>.
\<close>

fun find_user :: "pyval list \<Rightarrow> int \<Rightarrow> string list \<times> (error + pyval option)" where
  "find_user [] uid = ([''User not found''], Inr None)"
| "find_user (u # us) uid =
     (case attr_user_id u of
        Inl e \<Rightarrow> ([], Inl e)
      | Inr i \<Rightarrow> if i = uid then ([], Inr (Some u)) else find_user us uid)"

section \<open>Properties\<close>

subsection \<open>The counter of active instances\<close>

lemma length_filter_deactivate:
  "a < length xs \<Longrightarrow> active (xs ! a) \<Longrightarrow>
   Suc (length (filter active (xs[a := (xs ! a)\<lparr>active := False\<rparr>]))) = length (filter active xs)"
proof (induction xs arbitrary: a)
  case Nil
  then show ?case by simp
next
  case (Cons x xs)
  then show ?case by (cases a) auto
qed

lemma User_init_balance:
  "active_user_count (snd (User_init c uid n e w)) - int (active_instances (snd (User_init c uid n e w)))
   = active_user_count w - int (active_instances w)"
  by (simp add: User_init_def active_instances_def)

lemma deactivate_balance:
  "active_user_count (deactivate a w) - int (active_instances (deactivate a w))
   = active_user_count w - int (active_instances w)"
proof (cases "a < length (heap w) \<and> active (heap w ! a)")
  case True
  then have "Suc (length (filter active ((heap w)[a := (heap w ! a)\<lparr>active := False\<rparr>])))
             = length (filter active (heap w))"
    using length_filter_deactivate by blast
  with True show ?thesis
    by (simp add: deactivate_def active_instances_def)
next
  case False
  then show ?thesis by (auto simp: deactivate_def)
qed

lemma perform_balance:
  "active_user_count (perform x w) - int (active_instances (perform x w))
   = active_user_count w - int (active_instances w)"
  by (cases x) (simp_all only: perform.simps User_init_balance deactivate_balance)

lemma perform_all_balance:
  "active_user_count (perform_all xs w) - int (active_instances (perform_all xs w))
   = active_user_count w - int (active_instances w)"
  by (induction xs arbitrary: w) (simp_all add: perform_balance)

text \<open>
  C1.  Every construction, of either class, adds exactly one to
  \<^verbatim>\<open>User.active_user_count\<close>.  \<^verbatim>\<open>deactivate\<close> on an active instance subtracts
  exactly one and clears the flag of that instance alone; on an inactive instance it
  changes nothing, neither the counter nor the instance, so a second call is a no-op.
  Over any sequence of constructions and deactivations the difference between the
  counter and the number of active instances never changes, and from the initial
  world the counter is the number of active instances.
\<close>

theorem active_count_tracks_instances:
  "active_user_count (snd (User_init c uid n e w)) = active_user_count w + 1
   \<and> (a < length (heap w) \<and> active (heap w ! a) \<longrightarrow>
        active_user_count (deactivate a w) = active_user_count w - 1
        \<and> heap (deactivate a w) = (heap w)[a := (heap w ! a)\<lparr>active := False\<rparr>])
   \<and> (a < length (heap w) \<and> \<not> active (heap w ! a) \<longrightarrow> deactivate a w = w)
   \<and> deactivate a (deactivate a w) = deactivate a w
   \<and> active_user_count (perform_all acts w) - int (active_instances (perform_all acts w))
       = active_user_count w - int (active_instances w)
   \<and> active_user_count (perform_all acts initial_world)
       = int (active_instances (perform_all acts initial_world))"
proof -
  have c1: "active_user_count (snd (User_init c uid n e w)) = active_user_count w + 1"
    by (simp add: User_init_def)
  have c2: "a < length (heap w) \<and> active (heap w ! a) \<longrightarrow>
        active_user_count (deactivate a w) = active_user_count w - 1
        \<and> heap (deactivate a w) = (heap w)[a := (heap w ! a)\<lparr>active := False\<rparr>]"
    by (simp add: deactivate_def)
  have c3: "a < length (heap w) \<and> \<not> active (heap w ! a) \<longrightarrow> deactivate a w = w"
    by (simp add: deactivate_def)
  have c4: "deactivate a (deactivate a w) = deactivate a w"
    by (simp add: deactivate_def)
  have c5: "active_user_count (perform_all acts w) - int (active_instances (perform_all acts w))
       = active_user_count w - int (active_instances w)"
    by (rule perform_all_balance)
  have "active_user_count initial_world - int (active_instances initial_world) = 0"
    by (simp add: initial_world_def active_instances_def)
  with perform_all_balance [of acts initial_world]
  have c6: "active_user_count (perform_all acts initial_world)
       = int (active_instances (perform_all acts initial_world))"
    by simp
  from c1 c2 c3 c4 c5 c6 show ?thesis by blast
qed

text \<open>
  The theorem at a run of the driver's two constructions followed by two
  deactivations of the first instance: the counter goes 1, 2, 1, 1.
\<close>

theorem active_count_tracks_instances_witness:
  "(0 < length (heap (perform_all [Construct AdminUser 1 ''Akash'' ''akash@test.com'',
                                   Construct RegularUser 2 ''Rahul'' ''rahul@test.com''] initial_world))
    \<and> active (heap (perform_all [Construct AdminUser 1 ''Akash'' ''akash@test.com'',
                                  Construct RegularUser 2 ''Rahul'' ''rahul@test.com''] initial_world) ! 0)
    \<and> active_user_count (perform_all [Construct AdminUser 1 ''Akash'' ''akash@test.com'',
                                   Construct RegularUser 2 ''Rahul'' ''rahul@test.com''] initial_world) = 2
    \<and> active_user_count (deactivate 0
         (perform_all [Construct AdminUser 1 ''Akash'' ''akash@test.com'',
                       Construct RegularUser 2 ''Rahul'' ''rahul@test.com''] initial_world)) = 1)
   \<and> (0 < length (heap (perform_all [Construct AdminUser 1 ''Akash'' ''akash@test.com'',
                                     Construct RegularUser 2 ''Rahul'' ''rahul@test.com'',
                                     Deactivate 0] initial_world))
    \<and> \<not> active (heap (perform_all [Construct AdminUser 1 ''Akash'' ''akash@test.com'',
                                     Construct RegularUser 2 ''Rahul'' ''rahul@test.com'',
                                     Deactivate 0] initial_world) ! 0)
    \<and> active_user_count (deactivate 0
         (perform_all [Construct AdminUser 1 ''Akash'' ''akash@test.com'',
                       Construct RegularUser 2 ''Rahul'' ''rahul@test.com'',
                       Deactivate 0] initial_world)) = 1)"
  using active_count_tracks_instances
    [where w = "perform_all [Construct AdminUser 1 ''Akash'' ''akash@test.com'',
                             Construct RegularUser 2 ''Rahul'' ''rahul@test.com''] initial_world"
       and a = 0 and acts = "[]"]
    active_count_tracks_instances
    [where w = "perform_all [Construct AdminUser 1 ''Akash'' ''akash@test.com'',
                             Construct RegularUser 2 ''Rahul'' ''rahul@test.com'',
                             Deactivate 0] initial_world"
       and a = 0 and acts = "[]"]
  by (simp add: User_init_def deactivate_def initial_world_def)

subsection \<open>The gated delete operation\<close>

text \<open>
  C2.  Called on an object whose role is not \<^verbatim>\<open>"ADMIN"\<close>, \<^verbatim>\<open>delete_user\<close> raises
  \<^verbatim>\<open>PermissionError\<close> and prints nothing, neither the logging notice nor the
  deletion notice: the gate is the outermost wrapper.  Called on an object whose role
  is \<^verbatim>\<open>"ADMIN"\<close> it returns and has printed the logging notice and then the deletion
  notice.  The role is \<^verbatim>\<open>"ADMIN"\<close> exactly for instances of \<^verbatim>\<open>AdminUser\<close>.
\<close>

theorem delete_user_gate:
  "(get_role self \<noteq> ''ADMIN'' \<longrightarrow>
      call delete_user (self, ()) w = ([], Inl (PermissionError ''Admin access required''), w))
   \<and> (get_role self = ''ADMIN'' \<longrightarrow>
      call delete_user (self, ()) w
        = ([''[LOG] Executing delete_user'', ''User deleted''], Inr (), w))
   \<and> (get_role self = ''ADMIN'' \<longleftrightarrow> cls self = AdminUser)"
  by (cases "cls self")
     (simp_all add: delete_user_def require_admin_def log_execution_def delete_user_body_def)

theorem delete_user_gate_witness:
  "get_role \<lparr>cls = RegularUser, user_id = 2, name = ''Rahul'', email = ''rahul@test.com'', active = True\<rparr>
     \<noteq> ''ADMIN''
   \<and> call delete_user
       (\<lparr>cls = RegularUser, user_id = 2, name = ''Rahul'', email = ''rahul@test.com'', active = True\<rparr>, ())
       initial_world
     = ([], Inl (PermissionError ''Admin access required''), initial_world)
   \<and> get_role \<lparr>cls = AdminUser, user_id = 1, name = ''Akash'', email = ''akash@test.com'', active = True\<rparr>
     = ''ADMIN''
   \<and> call delete_user
       (\<lparr>cls = AdminUser, user_id = 1, name = ''Akash'', email = ''akash@test.com'', active = True\<rparr>, ())
       initial_world
     = ([''[LOG] Executing delete_user'', ''User deleted''], Inr (), initial_world)"
  using delete_user_gate
    [of "\<lparr>cls = RegularUser, user_id = 2, name = ''Rahul'', email = ''rahul@test.com'', active = True\<rparr>"
        initial_world]
    delete_user_gate
    [of "\<lparr>cls = AdminUser, user_id = 1, name = ''Akash'', email = ''akash@test.com'', active = True\<rparr>"
        initial_world]
  by simp

subsection \<open>The alternate constructor\<close>









lemma decimal_value_Nil: "decimal_value [] = 0"
  by (simp add: decimal_value_def)

lemma decimal_value_Cons:
  "decimal_value (d # ds) = digit_val d * 10 ^ length ds + decimal_value ds"
  unfolding decimal_value_def length_Cons sum.lessThan_Suc_shift by simp

lemma decimal_value_snoc:
  "decimal_value (ds @ [d]) = 10 * decimal_value ds + digit_val d"
  by (induction ds) (simp_all add: decimal_value_Cons decimal_value_Nil algebra_simps)






















subsection \<open>The logging and timing wrappers\<close>

lemma call_log_execution:
  "call (log_execution en f) args w =
     ((if en then [''[LOG] Executing '' @ fname f] else []) @ fst (call f args w), snd (call f args w))"
  by (simp add: log_execution_def split: prod.splits)

lemma call_time_execution:
  "call (time_execution clock fmt f) args w =
     (fst (call f args w) @
        (case fst (snd (call f args w)) of
           Inl e \<Rightarrow> []
         | Inr v \<Rightarrow> [''[TIME] '' @ fname f @ '' took '' @ fmt (clock (snd (snd (call f args w)))) (clock w) @ ''s'']),
      snd (call f args w))"
  by (simp add: time_execution_def split: prod.splits sum.splits)

lemma fname_wrappers:
  "fname (log_execution en f) = fname f" "fname (time_execution clock fmt f) = fname f"
  by (simp_all add: log_execution_def time_execution_def)

text \<open>
  C4.  For every function, arguments and world, the function wrapped by
  \<^verbatim>\<open>log_execution\<close> (enabled or not) or by \<^verbatim>\<open>time_execution\<close>, or by both in
  either order, returns the value or raises the exception of the function itself and
  leaves the same world.  The wrappers only add console lines: the logging notice
  before the function's own output when enabled, the timing notice after it when the
  function has returned.  The wrapped function keeps the name.
\<close>

theorem wrappers_preserve_outcome:
  "snd (call (log_execution en f) args w) = snd (call f args w)
   \<and> snd (call (time_execution clock fmt f) args w) = snd (call f args w)
   \<and> snd (call (log_execution en (time_execution clock fmt f)) args w) = snd (call f args w)
   \<and> snd (call (time_execution clock fmt (log_execution en f)) args w) = snd (call f args w)
   \<and> fst (call (log_execution en f) args w)
       = (if en then [''[LOG] Executing '' @ fname f] else []) @ fst (call f args w)
   \<and> fst (call (time_execution clock fmt f) args w)
       = fst (call f args w) @
         (case fst (snd (call f args w)) of
            Inl e \<Rightarrow> []
          | Inr v \<Rightarrow> [''[TIME] '' @ fname f @ '' took ''
                        @ fmt (clock (snd (snd (call f args w)))) (clock w) @ ''s''])
   \<and> fname (log_execution en f) = fname f
   \<and> fname (time_execution clock fmt f) = fname f"
  by (simp add: call_log_execution call_time_execution fname_wrappers)

text \<open>
  The wrappers on the body of \<^verbatim>\<open>delete_user\<close>, with a clock that reads the world
  and a fixed rendering of the elapsed time.
\<close>

theorem wrappers_preserve_outcome_witness:
  "call (time_execution (\<lambda>w. w) (\<lambda>t s. ''0.0000'') (log_execution True delete_user_body))
     (\<lparr>cls = AdminUser, user_id = 1, name = ''Akash'', email = ''akash@test.com'', active = True\<rparr>, ()) initial_world
   = ([''[LOG] Executing delete_user'', ''User deleted'', ''[TIME] delete_user took 0.0000s''],
      snd (call delete_user_body
             (\<lparr>cls = AdminUser, user_id = 1, name = ''Akash'', email = ''akash@test.com'', active = True\<rparr>, ()) initial_world))"
  using wrappers_preserve_outcome
    [where f = "log_execution True delete_user_body" and en = True
       and clock = "\<lambda>w. w" and fmt = "\<lambda>t s. ''0.0000''"
       and args = "(\<lparr>cls = AdminUser, user_id = 1, name = ''Akash'', email = ''akash@test.com'', active = True\<rparr>, ())"
       and w = initial_world]
  by (simp add: time_execution_def log_execution_def delete_user_body_def)

text \<open>
  C9.  When the wrapped function raises, the call of the timed function is the call
  of the function itself: the same exception, the same world, and the same console
  output, with no timing notice added.  The timing notice is appended only when the
  function returns.
\<close>

theorem time_execution_error_path:
  "(fst (snd (call f args w)) = Inl e \<longrightarrow>
      call (time_execution clock fmt f) args w = call f args w)
   \<and> (fst (snd (call f args w)) = Inr v \<longrightarrow>
      fst (call (time_execution clock fmt f) args w)
        = fst (call f args w)
          @ [''[TIME] '' @ fname f @ '' took '' @ fmt (clock (snd (snd (call f args w)))) (clock w) @ ''s''])"
  by (simp add: call_time_execution)

text \<open>A function that prints a line and raises, and one that prints a line and returns.\<close>

theorem time_execution_error_path_witness:
  "fst (snd (call \<lparr>fname = ''boom'', call = (\<lambda>(x :: int) (w :: nat). ([''started''], Inl ValueError :: error + int, w))\<rparr> 7 0))
     = Inl ValueError
   \<and> call (time_execution (\<lambda>w. w) (\<lambda>t s. ''0.0000'')
        \<lparr>fname = ''boom'', call = (\<lambda>(x :: int) (w :: nat). ([''started''], Inl ValueError :: error + int, w))\<rparr>) 7 0
     = ([''started''], Inl ValueError, 0)
   \<and> fst (snd (call \<lparr>fname = ''twice'', call = (\<lambda>(x :: int) (w :: nat). ([''started''], Inr (2 * x) :: error + int, w))\<rparr> 7 0))
     = Inr 14
   \<and> fst (call (time_execution (\<lambda>w. w) (\<lambda>t s. ''0.0000'')
        \<lparr>fname = ''twice'', call = (\<lambda>(x :: int) (w :: nat). ([''started''], Inr (2 * x) :: error + int, w))\<rparr>) 7 0)
     = [''started'', ''[TIME] twice took 0.0000s'']"
  using time_execution_error_path
    [where f = "\<lparr>fname = ''boom'', call = (\<lambda>(x :: int) (w :: nat). ([''started''], Inl ValueError :: error + int, w))\<rparr>"
       and args = 7 and w = 0 and e = ValueError and clock = "\<lambda>w. w" and fmt = "\<lambda>t s. ''0.0000''"]
    time_execution_error_path
    [where f = "\<lparr>fname = ''twice'', call = (\<lambda>(x :: int) (w :: nat). ([''started''], Inr (2 * x) :: error + int, w))\<rparr>"
       and args = 7 and w = 0 and v = 14 and clock = "\<lambda>w. w" and fmt = "\<lambda>t s. ''0.0000''"]
  by simp

subsection \<open>Equality and order\<close>

text \<open>
  C6.  For two users of any class, \<^verbatim>\<open>u == v\<close> is the equality of the identifiers
  and \<^verbatim>\<open>u < v\<close> is the strict order of the identifiers.  Changing the class, the
  name, the email or the active flag of either user changes neither result.
\<close>

theorem User_eq_lt_by_identifier:
  "User_eq u (UserV v) = Inr (user_id u = user_id v)
   \<and> User_lt u (UserV v) = Inr (user_id u < user_id v)
   \<and> User_eq (u\<lparr>cls := c, name := n, email := e, active := a\<rparr>)
              (UserV (v\<lparr>cls := c', name := n', email := e', active := a'\<rparr>))
       = User_eq u (UserV v)
   \<and> User_lt (u\<lparr>cls := c, name := n, email := e, active := a\<rparr>)
              (UserV (v\<lparr>cls := c', name := n', email := e', active := a'\<rparr>))
       = User_lt u (UserV v)"
  by (simp add: User_eq_def User_lt_def)

text \<open>
  C10.  \<^verbatim>\<open>__eq__\<close> reads \<^verbatim>\<open>other.user_id\<close> with no type check: against a value
  that has no such attribute the comparison raises \<^verbatim>\<open>AttributeError\<close> and returns
  no boolean.  It returns a boolean exactly when the other operand is a user.
\<close>

theorem User_eq_non_user:
  "User_eq u OtherV = Inl AttributeError
   \<and> ((\<exists>b. User_eq u x = Inr b) \<longleftrightarrow> (\<exists>v. x = UserV v))
   \<and> (User_eq u x = Inl AttributeError \<longleftrightarrow> x = OtherV)"
  by (cases x) (simp_all add: User_eq_def)

subsection \<open>Lookup\<close>

lemma find_user_skip:
  "\<forall>x\<in>set pre. \<exists>i. attr_user_id x = Inr i \<and> i \<noteq> uid \<Longrightarrow>
   find_user (pre @ rest) uid = find_user rest uid"
  by (induction pre) auto

text \<open>
  C7.  When the list begins with users whose identifiers differ from the one sought
  and continues with a user that has it, \<^verbatim>\<open>find_user\<close> returns that user and prints
  nothing, whatever follows in the list, be it a value without \<^verbatim>\<open>user_id\<close>: the
  rest is not examined.  When every element is a user with another identifier,
  \<^verbatim>\<open>find_user\<close> prints the one line \<^verbatim>\<open>User not found\<close> and returns \<^verbatim>\<open>None\<close>; it
  does not raise.
\<close>

theorem find_user_first_match:
  "((\<forall>x\<in>set pre. \<exists>i. attr_user_id x = Inr i \<and> i \<noteq> uid) \<and> user_id u = uid \<longrightarrow>
      find_user (pre @ UserV u # post) uid = ([], Inr (Some (UserV u))))
   \<and> ((\<forall>x\<in>set xs. \<exists>i. attr_user_id x = Inr i \<and> i \<noteq> uid) \<longrightarrow>
      find_user xs uid = ([''User not found''], Inr None))"
proof -
  have found: "find_user (pre @ UserV u # post) uid = ([], Inr (Some (UserV u)))"
    if "\<forall>x\<in>set pre. \<exists>i. attr_user_id x = Inr i \<and> i \<noteq> uid" and "user_id u = uid"
    using that by (simp add: find_user_skip)
  have missing: "find_user xs uid = ([''User not found''], Inr None)"
    if "\<forall>x\<in>set xs. \<exists>i. attr_user_id x = Inr i \<and> i \<noteq> uid"
    using find_user_skip [OF that, of "[]"] by simp
  from found missing show ?thesis by blast
qed

text \<open>
  The driver's two users followed by a value that is no user: identifier 2 is found
  in front of it; identifier 99 is not among the two users.
\<close>

theorem find_user_first_match_witness:
  "(\<exists>i. attr_user_id (UserV \<lparr>cls = AdminUser, user_id = 1, name = ''Akash'', email = ''akash@test.com'', active = True\<rparr>) = Inr i \<and> i \<noteq> 2)
   \<and> find_user ([UserV \<lparr>cls = AdminUser, user_id = 1, name = ''Akash'', email = ''akash@test.com'', active = True\<rparr>]
                 @ UserV \<lparr>cls = RegularUser, user_id = 2, name = ''Rahul'', email = ''rahul@test.com'', active = True\<rparr> # [OtherV]) 2
       = ([], Inr (Some (UserV \<lparr>cls = RegularUser, user_id = 2, name = ''Rahul'', email = ''rahul@test.com'', active = True\<rparr>)))
   \<and> (\<exists>i. attr_user_id (UserV \<lparr>cls = AdminUser, user_id = 1, name = ''Akash'', email = ''akash@test.com'', active = True\<rparr>) = Inr i \<and> i \<noteq> 99)
   \<and> (\<exists>i. attr_user_id (UserV \<lparr>cls = RegularUser, user_id = 2, name = ''Rahul'', email = ''rahul@test.com'', active = True\<rparr>) = Inr i \<and> i \<noteq> 99)
   \<and> find_user [UserV \<lparr>cls = AdminUser, user_id = 1, name = ''Akash'', email = ''akash@test.com'', active = True\<rparr>,
                 UserV \<lparr>cls = RegularUser, user_id = 2, name = ''Rahul'', email = ''rahul@test.com'', active = True\<rparr>] 99
       = ([''User not found''], Inr None)"
  using find_user_first_match
    [where pre = "[UserV \<lparr>cls = AdminUser, user_id = 1, name = ''Akash'', email = ''akash@test.com'', active = True\<rparr>]"
       and u = "\<lparr>cls = RegularUser, user_id = 2, name = ''Rahul'', email = ''rahul@test.com'', active = True\<rparr>"
       and post = "[OtherV]" and uid = 2 and xs = "[]"]
    find_user_first_match
    [where pre = "[]"
       and u = "\<lparr>cls = RegularUser, user_id = 2, name = ''Rahul'', email = ''rahul@test.com'', active = True\<rparr>"
       and post = "[]" and uid = 99
       and xs = "[UserV \<lparr>cls = AdminUser, user_id = 1, name = ''Akash'', email = ''akash@test.com'', active = True\<rparr>,
                  UserV \<lparr>cls = RegularUser, user_id = 2, name = ''Rahul'', email = ''rahul@test.com'', active = True\<rparr>]"]
  by simp

subsection \<open>Traversal of the repository\<close>

lemma traverse_Finished: "traverse Finished = []"
  by (simp add: traverse.simps)

lemma traverse_Suspended: "traverse (Suspended xs i) = drop i xs"
proof (induction "length xs - i" arbitrary: i)
  case 0
  then show ?case by (simp add: traverse.simps [of "Suspended xs i"] resume_def)
next
  case (Suc k)
  then have less: "i < length xs" and ih: "traverse (Suspended xs (Suc i)) = drop (Suc i) xs"
    by simp_all
  then show ?case
    by (simp add: traverse.simps [of "Suspended xs i"] resume_def Cons_nth_drop_Suc)
qed

lemma traverse_stream_users: "traverse (stream_users r) = users r"
proof (cases "users r")
  case Nil
  then show ?thesis
    by (simp add: stream_users_def traverse.simps [of "Created r"] resume_def)
next
  case (Cons x xs)
  then show ?thesis
    by (simp add: stream_users_def traverse.simps [of "Created r"] resume_def traverse_Suspended)
qed

lemma traverse_upto_Suspended:
  "i \<le> length xs \<Longrightarrow>
   traverse_upto k (Suspended xs i)
     = (take k (drop i xs), if i + k \<le> length xs then Suspended xs (i + k) else Finished)"
proof (induction k arbitrary: i)
  case 0
  then show ?case by simp
next
  case (Suc k)
  show ?case
  proof (cases "i < length xs")
    case True
    then have "drop i xs = xs ! i # drop (Suc i) xs"
      by (simp add: Cons_nth_drop_Suc)
    with True Suc.IH [of "Suc i"] show ?thesis
      by (simp add: resume_def)
  next
    case False
    with Suc.prems show ?thesis by (simp add: resume_def)
  qed
qed

lemma traverse_upto_stream_users:
  "traverse_upto k (stream_users r)
     = (take k (users r),
        if k = 0 then Created r
        else if k \<le> length (users r) then Suspended (users r) k else Finished)"
proof (cases k)
  case 0
  then show ?thesis by (simp add: stream_users_def)
next
  case (Suc j)
  show ?thesis
  proof (cases "users r")
    case Nil
    with Suc show ?thesis by (simp add: stream_users_def resume_def)
  next
    case (Cons x xs)
    with Suc traverse_upto_Suspended [of 1 "users r" j] show ?thesis
      by (simp add: stream_users_def resume_def)
  qed
qed

text \<open>
  C8.  A full traversal of the generator that \<^verbatim>\<open>stream_users\<close> returns yields the
  elements of the repository, all of them, in the order of the list.  The elements
  come one at a time: after \<open>k\<close> calls of \<^verbatim>\<open>next\<close> the elements yielded are the
  first \<open>k\<close>, the next call yields the element at index \<open>k\<close>, or stops when there is
  none, and the generator goes on to yield the rest.  A generator never changes the
  repository, so each new request, after a partial or a complete traversal of an
  earlier generator, is again \<open>stream_users r\<close> and yields all elements in order.
\<close>

theorem stream_users_traversal:
  "traverse (stream_users r) = users r
   \<and> fst (traverse_upto k (stream_users r)) = take k (users r)
   \<and> traverse (snd (traverse_upto k (stream_users r))) = drop k (users r)
   \<and> (k < length (users r) \<longrightarrow>
        fst (gen_next (snd (traverse_upto k (stream_users r)))) = Some (users r ! k))
   \<and> (length (users r) \<le> k \<longrightarrow>
        fst (gen_next (snd (traverse_upto k (stream_users r)))) = None)"
proof -
  have full: "traverse (stream_users r) = users r"
    by (rule traverse_stream_users)
  have part: "fst (traverse_upto k (stream_users r)) = take k (users r)"
    by (simp add: traverse_upto_stream_users)
  have rest: "traverse (snd (traverse_upto k (stream_users r))) = drop k (users r)"
  proof -
    from full have "traverse (Created r) = users r"
      by (simp add: stream_users_def)
    then show ?thesis
      by (simp add: traverse_upto_stream_users traverse_Suspended traverse_Finished)
  qed
  have one: "k < length (users r) \<longrightarrow>
        fst (gen_next (snd (traverse_upto k (stream_users r)))) = Some (users r ! k)"
    by (simp add: traverse_upto_stream_users resume_def)
  have stop: "length (users r) \<le> k \<longrightarrow>
        fst (gen_next (snd (traverse_upto k (stream_users r)))) = None"
    by (simp add: traverse_upto_stream_users resume_def)
  from full part rest one stop show ?thesis by blast
qed

text \<open>A repository of three numbers, one call of \<^verbatim>\<open>next\<close>, then the second element; after five calls, the end.\<close>

theorem stream_users_traversal_witness:
  "(1::nat) < length (users \<lparr>users = [10, 20, 30 :: int]\<rparr>)
   \<and> fst (gen_next (snd (traverse_upto 1 (stream_users \<lparr>users = [10, 20, 30 :: int]\<rparr>)))) = Some 20
   \<and> traverse (stream_users \<lparr>users = [10, 20, 30 :: int]\<rparr>) = [10, 20, 30]
   \<and> traverse (snd (traverse_upto 1 (stream_users \<lparr>users = [10, 20, 30 :: int]\<rparr>))) = [20, 30]
   \<and> length (users \<lparr>users = [10, 20, 30 :: int]\<rparr>) \<le> 5
   \<and> fst (gen_next (snd (traverse_upto 5 (stream_users \<lparr>users = [10, 20, 30 :: int]\<rparr>)))) = None"
  using stream_users_traversal [where r = "\<lparr>users = [10, 20, 30 :: int]\<rparr>" and k = 1]
    stream_users_traversal [where r = "\<lparr>users = [10, 20, 30 :: int]\<rparr>" and k = 5]
  by simp

subsection \<open>Email check\<close>

text \<open>
  C5.  \<^verbatim>\<open>is_valid_email\<close> is true exactly for the strings that contain an
  \<^verbatim>\<open>@\<close> and a dot: the string has the shape \<open>p @ ''@'' @ q\<close> and the shape
  \<open>r @ ''.'' @ s\<close>.  It holds for \<^verbatim>\<open>a@b.c\<close> and fails for \<^verbatim>\<open>abc\<close> and for
  \<^verbatim>\<open>a@b\<close>.
\<close>

theorem is_valid_email_iff:
  "(is_valid_email e \<longleftrightarrow> (\<exists>p q. e = p @ ''@'' @ q) \<and> (\<exists>r s. e = r @ ''.'' @ s))
   \<and> is_valid_email ''a@b.c''
   \<and> \<not> is_valid_email ''abc''
   \<and> \<not> is_valid_email ''a@b''"
proof -
  have mem: "c \<in> set e \<longleftrightarrow> (\<exists>p q. e = p @ [c] @ q)" for c :: char
    by (simp add: in_set_conv_decomp)
  have "is_valid_email e \<longleftrightarrow> (\<exists>p q. e = p @ ''@'' @ q) \<and> (\<exists>r s. e = r @ ''.'' @ s)"
    unfolding is_valid_email_def mem ..
  moreover have "is_valid_email ''a@b.c''"
    by (simp add: is_valid_email_def)
  moreover have "\<not> is_valid_email ''abc''"
    by (simp add: is_valid_email_def)
  moreover have "\<not> is_valid_email ''a@b''"
    by (simp add: is_valid_email_def)
  ultimately show ?thesis by blast
qed

end
